theory Spec2Isabelle
  imports Complex_Main
begin

section \<open>Python values and exceptions\<close>

text \<open>
  The three notebooks are straight-line Python over parsed JSON, numpy arrays and RDKit
  molecules. The interpolation of notebook 2 is modelled in IEEE double precision, with
  its rounding, infinities and nan. The numbers of a JSON document and the scores of
  notebook 3 are modelled by exact reals, plus an explicit \<open>NaN\<close> for the mean of an
  empty list. Every exception a statement of the notebooks can raise is a value of
  \<open>py_error\<close>, and a fallible statement returns \<open>py_error + 'a\<close>. The last two
  constructors are the names the specification gives to a rejected response and to a
  rejected interpolation count; no statement of the notebooks raises them.
\<close>

datatype py_error =
    KeyError
  | TypeError
  | IndexError
  | ValueError
  | ZeroDivisionError
  | AxisError
  | ArgumentError
  | OverflowError
  | SchemaError
  | DegenerateInputError

datatype json =
    JNull
  | JBool bool
  | JNum real
  | JStr string
  | JArr "json list"
  | JObj "(string \<times> json) list"

text \<open>
  \<open>obj[key]\<close> with a string key. A parsed JSON object is a dict (each key once, in
  the association list); subscripting anything else with a string raises \<open>TypeError\<close>.
\<close>

fun py_getitem :: "json \<Rightarrow> string \<Rightarrow> py_error + json" where
  "py_getitem (JObj kvs) k = (case map_of kvs k of None \<Rightarrow> Inl KeyError | Some v \<Rightarrow> Inr v)"
| "py_getitem _ k = Inl TypeError"

section \<open>numpy arrays\<close>

text \<open>
  numpy is outside the repository; the functions the notebooks call are modelled by
  their documented behaviour. An n-dimensional array is the nesting of its axes; the
  leaves are its scalars. The representation is exact for every array \<open>np.array\<close>
  builds from a nested list (a zero-length axis can only be the last one there).
  Conversion between element types (\<open>dtype\<close>) is not modelled.
\<close>

datatype 'a ndarray = Scalar 'a | Axis "'a ndarray list"

fun shape :: "'a ndarray \<Rightarrow> nat list option" where
  "shape (Scalar x) = Some []"
| "shape (Axis []) = Some [0]"
| "shape (Axis (a # as)) =
     (case shape a of
        None \<Rightarrow> None
      | Some s \<Rightarrow>
          if list_all (\<lambda>b. shape b = Some s) as then Some (Suc (length as) # s) else None)"

fun nested_of_json :: "json \<Rightarrow> json ndarray" where
  "nested_of_json (JArr xs) = Axis (map nested_of_json xs)"
| "nested_of_json v = Scalar v"

text \<open>
  \<open>np.array(nested)\<close>: a nested sequence whose sub-sequences do not all have the same
  shape is rejected with \<open>ValueError\<close> (numpy 1.24 and later).
\<close>

definition np_array :: "'a ndarray \<Rightarrow> py_error + 'a ndarray" where
  "np_array a = (case shape a of None \<Rightarrow> Inl ValueError | Some s \<Rightarrow> Inr a)"

text \<open>\<open>np.squeeze(a)\<close> removes every axis of length one.\<close>

fun np_squeeze :: "'a ndarray \<Rightarrow> 'a ndarray" where
  "np_squeeze (Scalar x) = Scalar x"
| "np_squeeze (Axis [a]) = np_squeeze a"
| "np_squeeze (Axis as) = Axis (map np_squeeze as)"

text \<open>\<open>a[i]\<close> for a literal index \<open>i \<ge> 0\<close>.\<close>

fun nd_index :: "'a ndarray \<Rightarrow> nat \<Rightarrow> py_error + 'a ndarray" where
  "nd_index (Scalar x) i = Inl IndexError"
| "nd_index (Axis as) i = (if i < length as then Inr (as ! i) else Inl IndexError)"

text \<open>\<open>np.expand_dims(a, axis=1)\<close>: a new axis of length one below the first axis.\<close>

fun np_expand_dims_axis1 :: "'a ndarray \<Rightarrow> py_error + 'a ndarray" where
  "np_expand_dims_axis1 (Scalar x) = Inl AxisError"
| "np_expand_dims_axis1 (Axis as) = Inr (Axis (map (\<lambda>a. Axis [a]) as))"

fun tolist :: "real ndarray \<Rightarrow> json" where
  "tolist (Scalar x) = JNum x"
| "tolist (Axis as) = JArr (map tolist as)"

section \<open>Notebook 2: hidden-state extraction\<close>

text \<open>
  \<^verbatim>\<open>
  hiddens = response_json["hiddens"]
  hiddens_array = np.array(hiddens)
  hiddens_array = np.squeeze(hiddens_array)
  row1 = hiddens_array[0]
  row2 = hiddens_array[1]
  \<close>
\<close>

definition extract_hiddens :: "json \<Rightarrow> py_error + (json ndarray \<times> json ndarray)" where
  "extract_hiddens response_json =
     (case py_getitem response_json ''hiddens'' of
        Inl e \<Rightarrow> Inl e
      | Inr hiddens \<Rightarrow>
          (case np_array (nested_of_json hiddens) of
             Inl e \<Rightarrow> Inl e
           | Inr arr \<Rightarrow>
               (let hiddens_array = np_squeeze arr in
                case nd_index hiddens_array 0 of
                  Inl e \<Rightarrow> Inl e
                | Inr row1 \<Rightarrow>
                    (case nd_index hiddens_array 1 of
                       Inl e \<Rightarrow> Inl e
                     | Inr row2 \<Rightarrow> Inr (row1, row2)))))"

text \<open>Notebook 1 reads its field the same way: \<open>json.loads(response.text)["embeddings"]\<close>.\<close>

definition extract_embeddings :: "json \<Rightarrow> py_error + json" where
  "extract_embeddings response_json = py_getitem response_json ''embeddings''"

section \<open>IEEE double precision\<close>

text \<open>
  Python's \<open>float\<close> and numpy's \<open>float64\<close> are IEEE 754 binary64 numbers. A finite
  one is \<open>Fin m e\<close>, the number \<open>m * 2 ^ e\<close>, with the sign in \<open>m\<close>; stored numbers
  have \<open>2 ^ 52 \<le> |m| < 2 ^ 53\<close> and \<open>-1074 \<le> e \<le> 971\<close>, or \<open>|m| < 2 ^ 52\<close> and
  \<open>e = -1074\<close> (subnormal numbers and zero), so that equal numbers are equal values of the
  type. The sign of zero is not represented: Python's \<open>==\<close> does not see it, and no
  operation of the notebooks divides by a float.

  Every operation computes the exact result and rounds it to the nearest double, ties
  to the even mantissa. \<open>round_ratio p q E\<close> rounds the number \<open>(p / q) * 2 ^ E\<close>, for
  \<open>q > 0\<close>: \<open>l\<close> is the exponent of its leading bit (\<open>bit_length\<close> is Python's
  \<open>int.bit_length\<close>), \<open>e\<close> the exponent of the last mantissa bit and \<open>m\<close> the rounded
  mantissa; a result of \<open>2 ^ 1024\<close> or more is an infinity.
\<close>

datatype float64 = Fin int int | PInf | NInf | QNaN

fun bit_length :: "nat \<Rightarrow> nat" where
  "bit_length n = (if n = 0 then 0 else Suc (bit_length (n div 2)))"

declare bit_length.simps [simp del]

definition nearest_even :: "int \<Rightarrow> int \<Rightarrow> int" where
  "nearest_even a b =
     (let f = a div b; r = a mod b
      in if 2 * r < b then f else if b < 2 * r then f + 1 else if even f then f else f + 1)"

definition round_ratio :: "int \<Rightarrow> int \<Rightarrow> int \<Rightarrow> float64" where
  "round_ratio p q E =
     (if p = 0 then Fin 0 (- 1074)
      else
        let a = \<bar>p\<bar>;
            d = int (bit_length (nat a)) - int (bit_length (nat q));
            l = (if q * 2 ^ nat d \<le> a * 2 ^ nat (- d) then d else d - 1);
            e = max (l + E) (- 1022) - 52;
            k = E - e;
            m = nearest_even (a * 2 ^ nat k) (q * 2 ^ nat (- k))
        in if 971 < e \<or> (e = 971 \<and> m = 2 ^ 53) then (if 0 < p then PInf else NInf)
           else if m = 2 ^ 53 then Fin (sgn p * 2 ^ 52) (e + 1)
           else Fin (sgn p * m) e)"

definition zero64 :: float64 where
  "zero64 = Fin 0 (- 1074)"

definition one64 :: float64 where
  "one64 = Fin (2 ^ 52) (- 52)"

fun finite_double :: "float64 \<Rightarrow> bool" where
  "finite_double (Fin m e) =
     ((2 ^ 52 \<le> \<bar>m\<bar> \<and> \<bar>m\<bar> < 2 ^ 53 \<and> - 1074 \<le> e \<and> e \<le> 971) \<or> (\<bar>m\<bar> < 2 ^ 52 \<and> e = - 1074))"
| "finite_double _ = False"

fun fneg :: "float64 \<Rightarrow> float64" where
  "fneg (Fin m e) = Fin (- m) e"
| "fneg PInf = NInf"
| "fneg NInf = PInf"
| "fneg QNaN = QNaN"

fun fadd :: "float64 \<Rightarrow> float64 \<Rightarrow> float64" where
  "fadd (Fin m1 e1) (Fin m2 e2) =
     (let e = min e1 e2 in round_ratio (m1 * 2 ^ nat (e1 - e) + m2 * 2 ^ nat (e2 - e)) 1 e)"
| "fadd QNaN b = QNaN"
| "fadd a QNaN = QNaN"
| "fadd PInf NInf = QNaN"
| "fadd NInf PInf = QNaN"
| "fadd PInf b = PInf"
| "fadd a PInf = PInf"
| "fadd NInf b = NInf"
| "fadd a NInf = NInf"

definition fsub :: "float64 \<Rightarrow> float64 \<Rightarrow> float64" where
  "fsub a b = fadd a (fneg b)"

fun fsign :: "float64 \<Rightarrow> int" where
  "fsign (Fin m e) = sgn m"
| "fsign PInf = 1"
| "fsign NInf = - 1"
| "fsign QNaN = 0"

definition inf_of_sign :: "int \<Rightarrow> float64" where
  "inf_of_sign s = (if 0 < s then PInf else if s < 0 then NInf else QNaN)"

fun fmul :: "float64 \<Rightarrow> float64 \<Rightarrow> float64" where
  "fmul (Fin m1 e1) (Fin m2 e2) = round_ratio (m1 * m2) 1 (e1 + e2)"
| "fmul QNaN b = QNaN"
| "fmul a QNaN = QNaN"
| "fmul a b = inf_of_sign (fsign a * fsign b)"

text \<open>The order of two finite doubles (\<open><\<close>); it is false when an operand is nan.\<close>

fun fless :: "float64 \<Rightarrow> float64 \<Rightarrow> bool" where
  "fless (Fin m1 e1) (Fin m2 e2) =
     (let e = min e1 e2 in m1 * 2 ^ nat (e1 - e) < m2 * 2 ^ nat (e2 - e))"
| "fless QNaN b = False"
| "fless a QNaN = False"
| "fless a PInf = (a \<noteq> PInf)"
| "fless NInf b = (b \<noteq> NInf)"
| "fless a b = False"

section \<open>Notebook 2: interpolation\<close>

text \<open>
  \<^verbatim>\<open>
  interpolated_rows = []
  for i in range(n_interp):
      t = i / (n_interp - 1)
      interpolated_row = (1 - t) * row1 + t * row2
      interpolated_rows.append(interpolated_row)
  \<close>
  The rows are one-dimensional arrays of doubles. \<open>/\<close> on two Python ints gives the
  double nearest to the quotient; it raises \<open>ZeroDivisionError\<close> for a zero divisor and
  \<open>OverflowError\<close> for a quotient too large for a double. \<open>1 - t\<close> and the products
  and sums of the array elements are operations on doubles. \<open>+\<close> on two
  one-dimensional arrays is elementwise, broadcasts an array of length one and raises
  \<open>ValueError\<close> for any other pair of different lengths.
\<close>

definition py_range :: "int \<Rightarrow> int list" where
  "py_range n = map int [0..<nat n]"

definition py_truediv :: "int \<Rightarrow> int \<Rightarrow> py_error + float64" where
  "py_truediv a b =
     (if b = 0 then Inl ZeroDivisionError
      else case round_ratio (a * sgn b) \<bar>b\<bar> 0 of
             PInf \<Rightarrow> Inl OverflowError
           | NInf \<Rightarrow> Inl OverflowError
           | t \<Rightarrow> Inr t)"

definition np_scale :: "float64 \<Rightarrow> float64 list \<Rightarrow> float64 list" where
  "np_scale t v = map (\<lambda>x. fmul t x) v"

definition np_add :: "float64 list \<Rightarrow> float64 list \<Rightarrow> py_error + float64 list" where
  "np_add u v =
     (if length u = length v then Inr (map2 fadd u v)
      else if length u = 1 then Inr (map (\<lambda>y. fadd (hd u) y) v)
      else if length v = 1 then Inr (map (\<lambda>x. fadd x (hd v)) u)
      else Inl ValueError)"

definition interpolated_row ::
  "float64 list \<Rightarrow> float64 list \<Rightarrow> int \<Rightarrow> int \<Rightarrow> py_error + float64 list" where
  "interpolated_row row1 row2 n_interp i =
     (case py_truediv i (n_interp - 1) of
        Inl e \<Rightarrow> Inl e
      | Inr t \<Rightarrow> np_add (np_scale (fsub one64 t) row1) (np_scale t row2))"

fun interp_loop ::
  "float64 list \<Rightarrow> float64 list \<Rightarrow> int \<Rightarrow> int list \<Rightarrow> float64 list list \<Rightarrow>
     py_error + float64 list list" where
  "interp_loop row1 row2 n_interp [] interpolated_rows = Inr interpolated_rows"
| "interp_loop row1 row2 n_interp (i # is) interpolated_rows =
     (case interpolated_row row1 row2 n_interp i of
        Inl e \<Rightarrow> Inl e
      | Inr r \<Rightarrow> interp_loop row1 row2 n_interp is (interpolated_rows @ [r]))"

definition interpolate :: "float64 list \<Rightarrow> float64 list \<Rightarrow> int \<Rightarrow> py_error + float64 list list" where
  "interpolate row1 row2 n_interp = interp_loop row1 row2 n_interp (py_range n_interp) []"

section \<open>Notebook 2: the decode request\<close>

text \<open>
  \<^verbatim>\<open>
  interpolated_hiddens = np.expand_dims(np.array(interpolated_rows), axis=1)
  interpolated_hiddens_json = {"hiddens": interpolated_hiddens.tolist(),
                               "mask": [[True] for i in range(n_interp)]}
  \<close>
\<close>

record decode_request =
  hiddens :: json
  mask :: "bool list list"

definition vector :: "real list \<Rightarrow> real ndarray" where
  "vector r = Axis (map Scalar r)"

definition package_request :: "real list list \<Rightarrow> int \<Rightarrow> py_error + decode_request" where
  "package_request interpolated_rows n_interp =
     (case np_array (Axis (map vector interpolated_rows)) of
        Inl e \<Rightarrow> Inl e
      | Inr arr \<Rightarrow>
          (case np_expand_dims_axis1 arr of
             Inl e \<Rightarrow> Inl e
           | Inr interpolated_hiddens \<Rightarrow>
               Inr \<lparr>hiddens = tolist interpolated_hiddens,
                    mask = map (\<lambda>i. [True]) (py_range n_interp)\<rparr>))"

text \<open>
  The rows of an interpolation as the numbers \<open>tolist\<close> hands to JSON; there is none
  when an entry is an infinity or nan.
\<close>

fun float_value :: "float64 \<Rightarrow> real option" where
  "float_value (Fin m e) =
     Some (if 0 \<le> e then real_of_int m * 2 ^ nat e else real_of_int m / 2 ^ nat (- e))"
| "float_value f = None"

definition json_rows :: "float64 list list \<Rightarrow> real list list option" where
  "json_rows rows = those (map (\<lambda>r. those (map float_value r)) rows)"

text \<open>
  A nested JSON list has shape \<open>(k, ...)\<close> when it has \<open>k\<close> entries, each of the
  remaining shape; the empty shape is a number.
\<close>

fun has_shape :: "nat list \<Rightarrow> json \<Rightarrow> bool" where
  "has_shape [] j = (case j of JNum x \<Rightarrow> True | _ \<Rightarrow> False)"
| "has_shape (k # s) j =
     (case j of JArr xs \<Rightarrow> length xs = k \<and> list_all (has_shape s) xs | _ \<Rightarrow> False)"

section \<open>Notebook 2: deduplication\<close>

text \<open>
  \<open>list(dict.fromkeys(generated))\<close>. A Python dict keeps its keys in insertion order;
  storing under a key that is present keeps the key's position.
\<close>

type_synonym ('k, 'v) py_dict = "('k \<times> 'v) list"

fun dict_setitem :: "('k, 'v) py_dict \<Rightarrow> 'k \<Rightarrow> 'v \<Rightarrow> ('k, 'v) py_dict" where
  "dict_setitem [] k v = [(k, v)]"
| "dict_setitem ((k', v') # d) k v =
     (if k' = k then (k', v) # d else (k', v') # dict_setitem d k v)"

definition dict_fromkeys :: "'k list \<Rightarrow> ('k, unit) py_dict" where
  "dict_fromkeys ks = fold (\<lambda>k d. dict_setitem d k ()) ks []"

definition dict_keys :: "('k, 'v) py_dict \<Rightarrow> 'k list" where
  "dict_keys d = map fst d"

definition dedup :: "'k list \<Rightarrow> 'k list" where
  "dedup generated = dict_keys (dict_fromkeys generated)"

text \<open>The elements of a list at the positions where they occur for the first time.\<close>

definition first_occurrences :: "'a list \<Rightarrow> 'a list" where
  "first_occurrences xs =
     map (\<lambda>i. xs ! i) (filter (\<lambda>i. xs ! i \<notin> set (take i xs)) [0..<length xs])"

section \<open>Notebook 3: similarity and scoring\<close>

text \<open>
  RDKit is outside the repository; the notebook uses three of its functions, taken here
  as parameters: \<open>Chem.MolFromSmiles\<close> (\<open>None\<close> for a string that does not parse),
  \<open>GetMorganFingerprintAsBitVect\<close> (molecule, radius, number of bits; the result is the
  set of the bits that are on) and \<open>qed\<close> (the field \<open>QED\<close>). They are functions:
  parsing the same string twice gives the same molecule. Both fingerprints of a
  comparison are taken with the same number of bits, so the equal-length check of
  \<open>TanimotoSimilarity\<close> always passes.
\<close>

record 'mol rdkit =
  MolFromSmiles :: "string \<Rightarrow> 'mol option"
  GetMorganFingerprintAsBitVect :: "'mol \<Rightarrow> nat \<Rightarrow> nat \<Rightarrow> nat set"
  QED :: "'mol \<Rightarrow> real"

text \<open>
  Modelled from the spec: \<open>TanimotoSimilarity\<close> belongs to RDKit, not to the
  repository. The specification defines it as the overlap of the two bit sets,
  intersection over union: with \<open>x\<close> the number of bits on in both vectors and \<open>y\<close>,
  \<open>z\<close> the numbers of bits on in each, \<open>x / (y + z - x)\<close>. Where no bit is on in
  either vector the quotient is undefined and RDKit returns \<open>0.0\<close>.
\<close>

definition TanimotoSimilarity :: "nat set \<Rightarrow> nat set \<Rightarrow> real" where
  "TanimotoSimilarity bv1 bv2 =
     (let x = card (bv1 \<inter> bv2); y = card bv1; z = card bv2
      in if y + z - x = 0 then 0 else real x / real (y + z - x))"

text \<open>
  \<^verbatim>\<open>
  def tanimoto_similarity(smiles, reference: str):
      fingerprint_radius_param = 2
      fingerprint_nbits = 2048
      reference_mol = Chem.MolFromSmiles(reference)
      reference_fingerprint = GetMorganFingerprintAsBitVect(
          reference_mol, radius=fingerprint_radius_param, nBits=fingerprint_nbits)
      mol = Chem.MolFromSmiles(smiles)
      if mol is None:
          return 0
      fingerprint = GetMorganFingerprintAsBitVect(mol, radius=fingerprint_radius_param, nBits=fingerprint_nbits)
      return TanimotoSimilarity(fingerprint, reference_fingerprint)
  \<close>
  The fingerprint of \<open>None\<close> raises RDKit's \<open>ArgumentError\<close>, before the candidate is
  looked at.
\<close>

definition tanimoto_similarity :: "'mol rdkit \<Rightarrow> string \<Rightarrow> string \<Rightarrow> py_error + real" where
  "tanimoto_similarity rd smiles reference =
     (let fingerprint_radius_param = 2; fingerprint_nbits = 2048 in
      case MolFromSmiles rd reference of
        None \<Rightarrow> Inl ArgumentError
      | Some reference_mol \<Rightarrow>
          (let reference_fingerprint =
                 GetMorganFingerprintAsBitVect rd reference_mol fingerprint_radius_param fingerprint_nbits
           in case MolFromSmiles rd smiles of
                None \<Rightarrow> Inr 0
              | Some mol \<Rightarrow>
                  (let fingerprint =
                         GetMorganFingerprintAsBitVect rd mol fingerprint_radius_param fingerprint_nbits
                   in Inr (TanimotoSimilarity fingerprint reference_fingerprint))))"

text \<open>\<open>np.mean\<close> of a list of floats; of the empty list it is \<open>nan\<close> (with a warning).\<close>

datatype np_float = NaN | Num real

definition np_mean :: "real list \<Rightarrow> np_float" where
  "np_mean xs = (if xs = [] then NaN else Num (sum_list xs / real (length xs)))"

text \<open>
  The body of both sweep loops (over \<open>radii\<close> and over \<open>min_sims\<close>), from the list of
  generated SMILES on:
  \<^verbatim>\<open>
  valid_smiles = [m for m in generated_molecules if Chem.MolFromSmiles(m) is not None]
  radius_results['valid_smiles'] = len(valid_smiles)
  for smile in valid_smiles:
      mol = Chem.MolFromSmiles(smile)
      if mol:
          tanimoto = tanimoto_similarity(smile, upadacitinib)
          qed_score = qed(mol)
          radius_results['tanimoto_similarity'].append(tanimoto)
          radius_results['qed_score'].append(qed_score)
  radius_results['tanimoto_similarity'] = np.mean(radius_results['tanimoto_similarity'])
  radius_results['qed_score'] = np.mean(radius_results['qed_score'])
  \<close>
  The dict \<open>radius_results\<close> holds lists until the last two statements replace them by
  their means: \<open>score_lists\<close> is the dict before, \<open>sweep_record\<close> after.
\<close>

record score_lists =
  tanimoto_similarity_list :: "real list"
  qed_score_list :: "real list"
  valid_smiles :: nat

record sweep_record =
  mean_tanimoto_similarity :: np_float
  mean_qed_score :: np_float
  count_valid_smiles :: nat

fun scoring_loop ::
  "'mol rdkit \<Rightarrow> string \<Rightarrow> string list \<Rightarrow> score_lists \<Rightarrow> py_error + score_lists" where
  "scoring_loop rd reference [] radius_results = Inr radius_results"
| "scoring_loop rd reference (smile # rest) radius_results =
     (case MolFromSmiles rd smile of
        None \<Rightarrow> scoring_loop rd reference rest radius_results
      | Some mol \<Rightarrow>
          (case tanimoto_similarity rd smile reference of
             Inl e \<Rightarrow> Inl e
           | Inr tanimoto \<Rightarrow>
               (let qed_score = QED rd mol in
                scoring_loop rd reference rest
                  (radius_results
                     \<lparr>tanimoto_similarity_list := tanimoto_similarity_list radius_results @ [tanimoto],
                      qed_score_list := qed_score_list radius_results @ [qed_score]\<rparr>))))"

definition score_generated :: "'mol rdkit \<Rightarrow> string \<Rightarrow> string list \<Rightarrow> py_error + score_lists" where
  "score_generated rd reference generated_molecules =
     (let valid = filter (\<lambda>m. MolFromSmiles rd m \<noteq> None) generated_molecules in
      scoring_loop rd reference valid
        \<lparr>tanimoto_similarity_list = [], qed_score_list = [], valid_smiles = length valid\<rparr>)"

definition sweep_iteration :: "'mol rdkit \<Rightarrow> string \<Rightarrow> string list \<Rightarrow> py_error + sweep_record" where
  "sweep_iteration rd reference generated_molecules =
     (case score_generated rd reference generated_molecules of
        Inl e \<Rightarrow> Inl e
      | Inr radius_results \<Rightarrow>
          Inr \<lparr>mean_tanimoto_similarity = np_mean (tanimoto_similarity_list radius_results),
               mean_qed_score = np_mean (qed_score_list radius_results),
               count_valid_smiles = valid_smiles radius_results\<rparr>)"

section \<open>Reference formulas and example data\<close>

text \<open>
  The specification's formula for element \<open>i\<close> of an interpolation, with
  \<open>t = i / (n - 1)\<close>: \<open>(1 - t) * A + t * B\<close>, componentwise, in double precision.
\<close>

definition lerp64 :: "float64 \<Rightarrow> float64 list \<Rightarrow> float64 list \<Rightarrow> float64 list" where
  "lerp64 t A B = map2 (\<lambda>a b. fadd (fmul (fsub one64 t) a) (fmul t b)) A B"

text \<open>
  The \<open>hiddens\<close> field of a response for \<open>m\<close> molecules, of shape \<open>(m, 1, d)\<close>, and
  a row of it as an array.
\<close>

definition hiddens_payload :: "real list list \<Rightarrow> json" where
  "hiddens_payload rows = JArr (map (\<lambda>r. JArr [JArr (map JNum r)]) rows)"

definition json_vector :: "real list \<Rightarrow> json ndarray" where
  "json_vector r = Axis (map (\<lambda>x. Scalar (JNum x)) r)"

text \<open>
  A small toolkit for the examples: two strings parse, to molecules 1 and 2 with
  fingerprints \<open>{3, 5, 8}\<close> and \<open>{3, 9}\<close>; no other string parses.
\<close>

definition example_rdkit :: "nat rdkit" where
  "example_rdkit =
     \<lparr>MolFromSmiles = (\<lambda>s. if s = ''CCO'' then Some 1 else if s = ''CC'' then Some 2 else None),
      GetMorganFingerprintAsBitVect = (\<lambda>mol radius nBits. if mol = 1 then {3, 5, 8} else {3, 9}),
      QED = (\<lambda>mol. if mol = 1 then 1 / 2 else 1 / 4)\<rparr>"


section \<open>Deduplication: properties\<close>

lemma dict_keys_setitem:
  "dict_keys (dict_setitem d k v) = (if k \<in> set (dict_keys d) then dict_keys d else dict_keys d @ [k])"
  by (induction d k v rule: dict_setitem.induct) (auto simp: dict_keys_def)

lemma dedup_Nil: "dedup [] = []"
  by (simp add: dedup_def dict_fromkeys_def dict_keys_def)

lemma dedup_snoc:
  "dedup (ys @ [x]) = (if x \<in> set (dedup ys) then dedup ys else dedup ys @ [x])"
  by (simp add: dedup_def dict_fromkeys_def dict_keys_setitem)

lemma set_dedup: "set (dedup xs) = set xs"
  by (induction xs rule: rev_induct) (auto simp: dedup_Nil dedup_snoc)

lemma distinct_dedup: "distinct (dedup xs)"
  by (induction xs rule: rev_induct) (auto simp: dedup_Nil dedup_snoc)

lemma first_occurrences_snoc:
  "first_occurrences (ys @ [x]) =
     (if x \<in> set ys then first_occurrences ys else first_occurrences ys @ [x])"
proof -
  have upt: "[0..<length (ys @ [x])] = [0..<length ys] @ [length ys]"
    by simp
  have keep: "filter (\<lambda>i. (ys @ [x]) ! i \<notin> set (take i (ys @ [x]))) [0..<length ys] =
              filter (\<lambda>i. ys ! i \<notin> set (take i ys)) [0..<length ys]"
    by (rule filter_cong) (auto simp: nth_append)
  have same: "map (\<lambda>i. (ys @ [x]) ! i) (filter (\<lambda>i. ys ! i \<notin> set (take i ys)) [0..<length ys]) =
              map (\<lambda>i. ys ! i) (filter (\<lambda>i. ys ! i \<notin> set (take i ys)) [0..<length ys])"
    by (rule map_cong) (auto simp: nth_append)
  have new: "map (\<lambda>i. (ys @ [x]) ! i)
               (filter (\<lambda>i. (ys @ [x]) ! i \<notin> set (take i (ys @ [x]))) [length ys]) =
             (if x \<in> set ys then [] else [x])"
    by simp
  show ?thesis
    unfolding first_occurrences_def upt filter_append map_append keep same new
    by simp
qed

lemma dedup_first_occurrences: "dedup xs = first_occurrences xs"
proof (induction xs rule: rev_induct)
  case Nil
  show ?case by (simp add: dedup_Nil first_occurrences_def)
next
  case (snoc x ys)
  have "dedup (ys @ [x]) = (if x \<in> set ys then dedup ys else dedup ys @ [x])"
    by (simp only: dedup_snoc set_dedup)
  also have "\<dots> = first_occurrences (ys @ [x])"
    by (simp only: first_occurrences_snoc snoc.IH)
  finally show ?case .
qed

lemma dedup_distinct_id: "distinct xs \<Longrightarrow> dedup xs = xs"
  by (induction xs rule: rev_induct) (auto simp: dedup_Nil dedup_snoc set_dedup)

lemma count_list_distinct: "distinct xs \<Longrightarrow> x \<in> set xs \<Longrightarrow> count_list xs x = 1"
  by (induction xs) auto

lemma dedup_example: "dedup [''a'', ''b'', ''a'', ''c'', ''b''] = [''a'', ''b'', ''c'']"
  by (simp add: dedup_def dict_fromkeys_def dict_keys_def)

text \<open>
  Claim C4. For every list of generated strings, \<open>list(dict.fromkeys(xs))\<close> is the list
  of the elements of \<open>xs\<close> at the positions of their first occurrences, in that order:
  it has no duplicates and the same elements as \<open>xs\<close>, and on
  \<open>["a","b","a","c","b"]\<close> it gives \<open>["a","b","c"]\<close>.
\<close>

theorem dedup_stable:
  "dedup xs = first_occurrences xs \<and> distinct (dedup xs) \<and> set (dedup xs) = set xs \<and>
   dedup [''a'', ''b'', ''a'', ''c'', ''b''] = [''a'', ''b'', ''c'']"
  using dedup_first_occurrences [of xs] distinct_dedup [of xs] set_dedup [of xs] dedup_example
  by blast

text \<open>
  Claim C10. Deduplication is idempotent, and every element of a deduplicated list
  occurs in it exactly once.
\<close>

theorem dedup_idempotent:
  "dedup (dedup xs) = dedup xs \<and> (\<forall>x \<in> set (dedup xs). count_list (dedup xs) x = 1)"
  using dedup_distinct_id [OF distinct_dedup [of xs]] count_list_distinct [OF distinct_dedup [of xs]]
  by blast

theorem dedup_stable_witness:
  "dedup [3, 1, 3, 2, 1 :: nat] = first_occurrences [3, 1, 3, 2, 1] \<and>
   dedup [3, 1, 3, 2, 1 :: nat] = [3, 1, 2]"
  using dedup_stable [of "[3, 1, 3, 2, 1 :: nat]"]
  by (simp add: dedup_def dict_fromkeys_def dict_keys_def)

theorem dedup_idempotent_witness:
  "dedup (dedup [''CCO'', ''CC'', ''CCO'']) = [''CCO'', ''CC''] \<and>
   count_list (dedup [''CCO'', ''CC'', ''CCO'']) ''CCO'' = 1"
  using dedup_idempotent [of "[''CCO'', ''CC'', ''CCO'']"]
  by (simp add: dedup_def dict_fromkeys_def dict_keys_def)

section \<open>Similarity and scoring: properties\<close>


text \<open>
  Claim C6. When the reference parses and the candidate does not, \<open>tanimoto_similarity\<close>
  returns 0 and raises nothing; when the reference does not parse, the call fails with
  the toolkit's exception, which nothing catches, whatever the candidate is.
\<close>

theorem tanimoto_invalid_candidate:
  "(MolFromSmiles rd reference \<noteq> None \<and> MolFromSmiles rd smiles = None \<longrightarrow>
      tanimoto_similarity rd smiles reference = Inr 0) \<and>
   (MolFromSmiles rd reference = None \<longrightarrow>
      tanimoto_similarity rd smiles reference = Inl ArgumentError)"
  by (auto simp: tanimoto_similarity_def Let_def)

theorem tanimoto_invalid_candidate_witness:
  "tanimoto_similarity example_rdkit ''C1CC'' ''CCO'' = Inr 0 \<and>
   tanimoto_similarity example_rdkit ''CCO'' ''C1CC'' = Inl ArgumentError \<and>
   tanimoto_similarity example_rdkit ''C1CC'' ''C1CC'' = Inl ArgumentError"
  using tanimoto_invalid_candidate [of example_rdkit "''CCO''" "''C1CC''"]
    tanimoto_invalid_candidate [of example_rdkit "''C1CC''" "''CCO''"]
    tanimoto_invalid_candidate [of example_rdkit "''C1CC''" "''C1CC''"]
  by (simp add: example_rdkit_def)




lemma tanimoto_example: "tanimoto_similarity example_rdkit ''CC'' ''CCO'' = Inr (1 / 4)"
  by (simp add: tanimoto_similarity_def example_rdkit_def TanimotoSimilarity_def Let_def)

lemma scoring_loop_lengths:
  "scoring_loop rd reference xs res = Inr res' \<Longrightarrow>
   \<forall>m \<in> set xs. MolFromSmiles rd m \<noteq> None \<Longrightarrow>
   length (tanimoto_similarity_list res') = length (tanimoto_similarity_list res) + length xs \<and>
   length (qed_score_list res') = length (qed_score_list res) + length xs \<and>
   valid_smiles res' = valid_smiles res"
proof (induction xs arbitrary: res)
  case Nil
  then show ?case by simp
next
  case (Cons smile rest)
  from Cons.prems(2) obtain mol where mol: "MolFromSmiles rd smile = Some mol"
    by auto
  from Cons.prems(1) mol obtain t where
    t: "tanimoto_similarity rd smile reference = Inr t" and
    loop: "scoring_loop rd reference rest
             (res\<lparr>tanimoto_similarity_list := tanimoto_similarity_list res @ [t],
                  qed_score_list := qed_score_list res @ [QED rd mol]\<rparr>) = Inr res'"
    by (auto simp: Let_def split: sum.splits)
  from Cons.IH [OF loop] Cons.prems(2) show ?case
    by simp
qed

lemma scoring_loop_returns:
  "MolFromSmiles rd reference \<noteq> None \<Longrightarrow> \<exists>res'. scoring_loop rd reference xs res = Inr res'"
proof (induction xs arbitrary: res)
  case Nil
  show ?case by simp
next
  case (Cons smile rest)
  from Cons.prems have t: "\<exists>t. tanimoto_similarity rd smile reference = Inr t"
    by (auto simp: tanimoto_similarity_def Let_def split: option.splits)
  show ?case
  proof (cases "MolFromSmiles rd smile")
    case None
    with Cons show ?thesis by simp
  next
    case (Some mol)
    from t obtain tv where "tanimoto_similarity rd smile reference = Inr tv" ..
    with Some Cons show ?thesis by (simp add: Let_def)
  qed
qed

text \<open>
  Claim C9. Whenever the scoring loop of a sweep iteration completes, the list of
  Tanimoto similarities and the list of QED scores each have exactly \<open>valid_smiles\<close>
  entries, the number of generated strings that parse: the second parse inside the loop
  excludes nothing. The loop completes whenever the reference parses.
\<close>

theorem scores_in_lockstep:
  "(\<forall>res. score_generated rd reference generated = Inr res \<longrightarrow>
      length (tanimoto_similarity_list res) = valid_smiles res \<and>
      length (qed_score_list res) = valid_smiles res \<and>
      valid_smiles res = length (filter (\<lambda>m. MolFromSmiles rd m \<noteq> None) generated)) \<and>
   (MolFromSmiles rd reference \<noteq> None \<longrightarrow>
      (\<exists>res. score_generated rd reference generated = Inr res))"
proof (intro conjI allI impI)
  fix res
  assume r: "score_generated rd reference generated = Inr res"
  let ?valid = "filter (\<lambda>m. MolFromSmiles rd m \<noteq> None) generated"
  from r have loop: "scoring_loop rd reference ?valid
      \<lparr>tanimoto_similarity_list = [], qed_score_list = [], valid_smiles = length ?valid\<rparr> = Inr res"
    by (simp add: score_generated_def Let_def)
  have all: "\<forall>m \<in> set ?valid. MolFromSmiles rd m \<noteq> None"
    by simp
  from scoring_loop_lengths [OF loop all]
  show "length (tanimoto_similarity_list res) = valid_smiles res"
    and "length (qed_score_list res) = valid_smiles res"
    and "valid_smiles res = length ?valid"
    by simp_all
next
  assume "MolFromSmiles rd reference \<noteq> None"
  then show "\<exists>res. score_generated rd reference generated = Inr res"
    by (simp add: score_generated_def Let_def scoring_loop_returns)
qed

theorem scores_in_lockstep_witness:
  "score_generated example_rdkit ''CCO'' [''CC'', ''C1CC'', ''CCO''] =
     Inr \<lparr>tanimoto_similarity_list = [1 / 4, 1], qed_score_list = [1 / 4, 1 / 2], valid_smiles = 2\<rparr> \<and>
   length (filter (\<lambda>m. MolFromSmiles example_rdkit m \<noteq> None) [''CC'', ''C1CC'', ''CCO'']) = 2"
  using scores_in_lockstep [of example_rdkit "''CCO''" "[''CC'', ''C1CC'', ''CCO'']"]
  by (simp add: score_generated_def tanimoto_similarity_def example_rdkit_def
      TanimotoSimilarity_def Let_def)

lemma score_generated_none_valid:
  "\<forall>m \<in> set generated. MolFromSmiles rd m = None \<Longrightarrow>
   score_generated rd reference generated =
     Inr \<lparr>tanimoto_similarity_list = [], qed_score_list = [], valid_smiles = 0\<rparr>"
proof -
  assume "\<forall>m \<in> set generated. MolFromSmiles rd m = None"
  then have "filter (\<lambda>m. MolFromSmiles rd m \<noteq> None) generated = []"
    by (simp add: filter_empty_conv)
  then show ?thesis
    by (simp add: score_generated_def)
qed

text \<open>
  Claim C5. When none of the generated strings of a sweep iteration parses, the record of
  the iteration has count 0 and both means are \<open>nan\<close>, which is not the number 0.
\<close>

theorem empty_mean_is_nan:
  "\<forall>m \<in> set generated. MolFromSmiles rd m = None \<Longrightarrow>
   sweep_iteration rd reference generated =
     Inr \<lparr>mean_tanimoto_similarity = NaN, mean_qed_score = NaN, count_valid_smiles = 0\<rparr> \<and>
   NaN \<noteq> Num 0"
  by (simp add: sweep_iteration_def score_generated_none_valid np_mean_def)

theorem empty_mean_is_nan_witness:
  "sweep_iteration example_rdkit ''CCO'' [''C1CC'', ''N(''] =
     Inr \<lparr>mean_tanimoto_similarity = NaN, mean_qed_score = NaN, count_valid_smiles = 0\<rparr> \<and>
   (MolFromSmiles example_rdkit ''C1CC'' = None \<and> MolFromSmiles example_rdkit ''N('' = None)"
  using empty_mean_is_nan [of "[''C1CC'', ''N('']" example_rdkit "''CCO''"]
  by (simp add: example_rdkit_def)

lemma sweep_example:
  "sweep_iteration example_rdkit ''CCO'' [''CC'', ''C1CC'', ''CCO''] =
     Inr \<lparr>mean_tanimoto_similarity = Num (5 / 8), mean_qed_score = Num (3 / 8), count_valid_smiles = 2\<rparr>"
  by (simp add: sweep_iteration_def score_generated_def tanimoto_similarity_def example_rdkit_def
      TanimotoSimilarity_def Let_def np_mean_def)

section \<open>Double precision: properties\<close>

lemma bit_length_0: "bit_length 0 = 0"
  by (simp add: bit_length.simps)

lemma bit_length_1: "bit_length 1 = 1" "bit_length (Suc 0) = 1"
  by (simp_all add: bit_length.simps [of 1] bit_length.simps [of "Suc 0"] bit_length_0)

lemma bit_length_Bit0: "bit_length (numeral (Num.Bit0 k)) = bit_length (numeral k) + 1"
  by (subst bit_length.simps) (simp add: numeral_Bit0_div_2 del: One_nat_def)

lemma bit_length_Bit1: "bit_length (numeral (Num.Bit1 k)) = bit_length (numeral k) + 1"
  by (subst bit_length.simps) (simp add: numeral_Bit1_div_2 del: One_nat_def)

lemmas bit_length_eval = bit_length_0 bit_length_1 bit_length_Bit0 bit_length_Bit1

lemma bit_length_double: "0 < n \<Longrightarrow> bit_length (2 * n) = Suc (bit_length n)"
  by (subst bit_length.simps) simp

lemma bit_length_shift: "0 < n \<Longrightarrow> bit_length (n * 2 ^ j) = bit_length n + j"
proof (induction j)
  case 0
  show ?case by simp
next
  case (Suc j)
  then have "bit_length (2 * (n * 2 ^ j)) = Suc (bit_length (n * 2 ^ j))"
    by (intro bit_length_double) simp
  with Suc show ?case by (simp add: ac_simps)
qed

lemma bit_length_less: "n < 2 ^ bit_length n"
proof (induction n rule: bit_length.induct)
  case (1 n)
  show ?case
  proof (cases "n = 0")
    case True
    then show ?thesis by simp
  next
    case False
    with 1 have "n div 2 < 2 ^ bit_length (n div 2)" by simp
    then have "n < 2 * 2 ^ bit_length (n div 2)" by linarith
    with False show ?thesis by (subst bit_length.simps) simp
  qed
qed

lemma bit_length_ge: "0 < n \<Longrightarrow> 2 ^ (bit_length n - 1) \<le> n"
proof (induction n rule: bit_length.induct)
  case (1 n)
  show ?case
  proof (cases "n div 2 = 0")
    case True
    with 1 have "bit_length n = 1"
      by (subst bit_length.simps) (simp add: bit_length_0)
    with 1 show ?thesis by simp
  next
    case False
    then have pos: "0 < n div 2" by simp
    with 1 have ih: "2 ^ (bit_length (n div 2) - 1) \<le> n div 2" by simp
    have "0 < bit_length (n div 2)"
      using pos by (subst bit_length.simps) simp
    moreover have "bit_length n = Suc (bit_length (n div 2))"
      using 1 by (subst bit_length.simps) simp
    ultimately have "(2::nat) ^ (bit_length n - 1) = 2 * 2 ^ (bit_length (n div 2) - 1)"
      by (cases "bit_length (n div 2)") simp_all
    with ih show ?thesis by linarith
  qed
qed

lemma bit_length_le: "n < 2 ^ k \<Longrightarrow> bit_length n \<le> k"
proof (rule ccontr)
  assume n: "n < 2 ^ k" and "\<not> bit_length n \<le> k"
  then have k: "k \<le> bit_length n - 1" and pos: "0 < n"
    by (auto simp: bit_length_0 intro: gr0I)
  have "(2::nat) ^ k \<le> 2 ^ (bit_length n - 1)"
    using k by (intro power_increasing) simp_all
  from this bit_length_ge [OF pos] have "2 ^ k \<le> n" by (rule order_trans)
  with n show False by linarith
qed

lemma bit_length_mono: "m \<le> n \<Longrightarrow> bit_length m \<le> bit_length n"
  using bit_length_less [of n] by (intro bit_length_le) simp

lemma bit_length_eq: "2 ^ k \<le> n \<Longrightarrow> n < 2 ^ Suc k \<Longrightarrow> bit_length n = Suc k"
proof -
  assume lo: "2 ^ k \<le> n" and hi: "n < 2 ^ Suc k"
  from hi have "bit_length n \<le> Suc k" by (rule bit_length_le)
  moreover have "k < bit_length n"
  proof (rule ccontr)
    assume "\<not> k < bit_length n"
    then have "(2::nat) ^ bit_length n \<le> 2 ^ k"
      by (intro power_increasing) simp_all
    with bit_length_less [of n] lo show False by linarith
  qed
  ultimately show ?thesis by simp
qed

lemma nearest_even_exact: "0 < b \<Longrightarrow> nearest_even (a * b) b = a"
  by (simp add: nearest_even_def Let_def)

lemma round_ratio_finite:
  assumes "p \<noteq> 0"
    and "int (bit_length (nat \<bar>p\<bar>)) - int (bit_length (nat q)) = d"
    and "(if q * 2 ^ nat d \<le> \<bar>p\<bar> * 2 ^ nat (- d) then d else d - 1) = l"
    and "max (l + E) (- 1022) - 52 = e"
    and "nearest_even (\<bar>p\<bar> * 2 ^ nat (E - e)) (q * 2 ^ nat (- (E - e))) = m"
    and "\<not> 971 < e" and "m \<noteq> 2 ^ 53"
  shows "round_ratio p q E = Fin (sgn p * m) e"
  unfolding round_ratio_def Let_def
  by (simp only: assms if_False simp_thms)

lemma round_ratio_exact:
  assumes fd: "finite_double (Fin m e)" and m: "m \<noteq> 0"
  shows "round_ratio (m * 2 ^ j) 1 (e - int j) = Fin m e"
proof -
  define b where "b = bit_length (nat \<bar>m\<bar>)"
  have pos: "0 < nat \<bar>m\<bar>"
    using m by simp
  have abs_eq: "\<bar>m * 2 ^ j\<bar> = \<bar>m\<bar> * 2 ^ j"
    by (simp add: abs_mult)
  have nat_eq: "nat (\<bar>m\<bar> * 2 ^ j) = nat \<bar>m\<bar> * 2 ^ j"
    by (simp add: nat_mult_distrib nat_power_eq)
  have bl: "bit_length (nat (\<bar>m\<bar> * 2 ^ j)) = b + j"
    unfolding nat_eq b_def by (rule bit_length_shift [OF pos])
  have b_pos: "0 < b"
    unfolding b_def using pos by (subst bit_length.simps) simp
  have lo_nat: "2 ^ (b - 1) \<le> nat \<bar>m\<bar>"
    unfolding b_def by (rule bit_length_ge [OF pos])
  have lo: "(2::int) ^ (b + j - 1) \<le> \<bar>m\<bar> * 2 ^ j"
  proof -
    from lo_nat have "int (2 ^ (b - 1)) \<le> int (nat \<bar>m\<bar>)"
      by (simp only: of_nat_le_iff)
    then have base: "(2::int) ^ (b - 1) \<le> \<bar>m\<bar>"
      by simp
    have eq: "(2::int) ^ (b + j - 1) = 2 ^ (b - 1) * 2 ^ j"
      using b_pos by (simp add: power_add [symmetric])
    show ?thesis
      unfolding eq using base by (intro mult_right_mono) simp_all
  qed
  have expo: "max (int (b + j) - 1 + (e - int j)) (- 1022) - 52 = e"
  proof (cases "2 ^ 52 \<le> \<bar>m\<bar>")
    case True
    with fd have hi: "\<bar>m\<bar> < 2 ^ 53" and e: "- 1074 \<le> e"
      by auto
    from True have "2 ^ 52 \<le> nat \<bar>m\<bar>"
      by (simp add: le_nat_iff)
    moreover from hi have "nat \<bar>m\<bar> < 2 ^ Suc 52"
      by (simp add: nat_less_iff)
    ultimately have "b = 53"
      unfolding b_def using bit_length_eq [of 52 "nat \<bar>m\<bar>"] by simp
    with e show ?thesis by simp
  next
    case False
    with fd have e: "e = - 1074" and hi: "\<bar>m\<bar> < 2 ^ 52"
      by auto
    from hi have "nat \<bar>m\<bar> < 2 ^ 52"
      by (simp add: nat_less_iff)
    then have "b \<le> 52"
      unfolding b_def by (rule bit_length_le)
    with e show ?thesis by simp
  qed
  have range: "\<not> 971 < e" "\<bar>m\<bar> \<noteq> 2 ^ 53"
    using fd by auto
  have nz: "m * 2 ^ j \<noteq> 0"
    using m by simp
  have d: "int (bit_length (nat \<bar>m * 2 ^ j\<bar>)) - int (bit_length (nat 1)) = int (b + j) - 1"
    unfolding abs_eq by (simp add: bl bit_length_1)
  have l: "(if 1 * 2 ^ nat (int (b + j) - 1) \<le> \<bar>m * 2 ^ j\<bar> * 2 ^ nat (- (int (b + j) - 1))
            then int (b + j) - 1 else int (b + j) - 1 - 1) = int (b + j) - 1"
  proof -
    have "nat (int (b + j) - 1) = b + j - 1" "nat (- (int (b + j) - 1)) = 0"
      using b_pos by simp_all
    with lo show ?thesis
      unfolding abs_eq by simp
  qed
  have near: "nearest_even (\<bar>m * 2 ^ j\<bar> * 2 ^ nat (e - int j - e)) (1 * 2 ^ nat (- (e - int j - e))) = \<bar>m\<bar>"
    unfolding abs_eq using nearest_even_exact [of "2 ^ j" "\<bar>m\<bar>"] by simp
  have "round_ratio (m * 2 ^ j) 1 (e - int j) = Fin (sgn (m * 2 ^ j) * \<bar>m\<bar>) e"
    using nz d l expo near range by (rule round_ratio_finite)
  also have "sgn (m * 2 ^ j) * \<bar>m\<bar> = m"
    by (simp add: sgn_mult mult_sgn_abs)
  finally show ?thesis .
qed


lemma round_ratio_self: "0 < k \<Longrightarrow> round_ratio k k 0 = one64"
proof -
  assume k: "0 < k"
  have nz: "k \<noteq> 0" using k by simp
  have d: "int (bit_length (nat \<bar>k\<bar>)) - int (bit_length (nat k)) = 0"
    using k by simp
  have l: "(if k * 2 ^ nat 0 \<le> \<bar>k\<bar> * 2 ^ nat (- 0) then 0 else 0 - 1) = (0::int)"
    using k by simp
  have e: "max (0 + 0) (- 1022) - 52 = (- 52 :: int)"
    by simp
  have near: "nearest_even (\<bar>k\<bar> * 2 ^ nat (0 - - 52)) (k * 2 ^ nat (- (0 - - 52))) = 2 ^ 52"
    using k nearest_even_exact [of k "2 ^ 52"] by (simp add: ac_simps)
  have range: "\<not> 971 < (- 52 :: int)" "(2::int) ^ 52 \<noteq> 2 ^ 53"
    by simp_all
  have "round_ratio k k 0 = Fin (sgn k * 2 ^ 52) (- 52)"
    using nz d l e near range by (rule round_ratio_finite)
  with k show ?thesis
    by (simp add: one64_def)
qed

lemma round_ratio_small:
  assumes "p \<noteq> 0"
    and "int (bit_length (nat \<bar>p\<bar>)) - int (bit_length (nat q)) = d"
    and "(if q * 2 ^ nat d \<le> \<bar>p\<bar> * 2 ^ nat (- d) then d else d - 1) = l"
    and "max (l + E) (- 1022) - 52 = e"
    and "e < 971"
  shows "\<exists>m e'. round_ratio p q E = Fin m e'"
proof -
  from \<open>e < 971\<close> have no: "\<not> 971 < e" "e \<noteq> 971" by simp_all
  show ?thesis
    unfolding round_ratio_def Let_def
    by (simp only: assms(1-4) no if_False simp_thms split: if_split) blast
qed

lemma round_ratio_unit:
  assumes "0 \<le> i" and "i \<le> k" and "0 < k"
  shows "\<exists>m e. round_ratio i k 0 = Fin m e"
proof (cases "i = 0")
  case True
  then show ?thesis by (simp add: round_ratio_def)
next
  case False
  define d where "d = int (bit_length (nat \<bar>i\<bar>)) - int (bit_length (nat k))"
  define l where "l = (if k * 2 ^ nat d \<le> \<bar>i\<bar> * 2 ^ nat (- d) then d else d - 1)"
  define e where "e = max (l + 0) (- 1022) - 52"
  from assms have "nat \<bar>i\<bar> \<le> nat k" by simp
  then have "bit_length (nat \<bar>i\<bar>) \<le> bit_length (nat k)"
    by (rule bit_length_mono)
  then have "d \<le> 0" by (simp add: d_def)
  then have "l \<le> 0" by (simp add: l_def)
  then have "e < 971" by (simp add: e_def)
  with False d_def [symmetric] l_def [symmetric] e_def [symmetric]
  show ?thesis by (rule round_ratio_small)
qed

lemma fadd_zero_right: "finite_double a \<Longrightarrow> fadd a zero64 = a"
proof (cases a)
  case (Fin m e)
  assume fd: "finite_double a"
  show ?thesis
  proof (cases "m = 0")
    case True
    with fd Fin have "e = - 1074" by simp
    with True Fin show ?thesis by (simp add: zero64_def round_ratio_def)
  next
    case False
    from fd Fin have e: "- 1074 \<le> e" by auto
    then have "fadd a zero64 = round_ratio (m * 2 ^ nat (e + 1074)) 1 (e - int (nat (e + 1074)))"
      using Fin by (simp add: zero64_def min_def)
    also have "\<dots> = Fin m e"
      using fd Fin False by (intro round_ratio_exact) simp_all
    finally show ?thesis using Fin by simp
  qed
qed simp_all

lemma fadd_zero_left: "finite_double a \<Longrightarrow> fadd zero64 a = a"
proof (cases a)
  case (Fin m e)
  assume fd: "finite_double a"
  show ?thesis
  proof (cases "m = 0")
    case True
    with fd Fin have "e = - 1074" by simp
    with True Fin show ?thesis by (simp add: zero64_def round_ratio_def)
  next
    case False
    from fd Fin have e: "- 1074 \<le> e" by auto
    then have "fadd zero64 a = round_ratio (m * 2 ^ nat (e + 1074)) 1 (e - int (nat (e + 1074)))"
      using Fin by (simp add: zero64_def min_def)
    also have "\<dots> = Fin m e"
      using fd Fin False by (intro round_ratio_exact) simp_all
    finally show ?thesis using Fin by simp
  qed
qed simp_all

lemma fmul_one_left: "finite_double a \<Longrightarrow> fmul one64 a = a"
proof (cases a)
  case (Fin m e)
  assume fd: "finite_double a"
  show ?thesis
  proof (cases "m = 0")
    case True
    with fd Fin have "e = - 1074" by simp
    with True Fin show ?thesis by (simp add: one64_def round_ratio_def)
  next
    case False
    have "fmul one64 a = round_ratio (m * 2 ^ 52) 1 (e - int 52)"
      using Fin by (simp add: one64_def ac_simps)
    also have "\<dots> = Fin m e"
      using fd Fin False by (intro round_ratio_exact) simp_all
    finally show ?thesis using Fin by simp
  qed
qed simp_all

lemma fmul_zero_left: "finite_double a \<Longrightarrow> fmul zero64 a = zero64"
  by (cases a) (simp_all add: zero64_def round_ratio_def)

lemma finite_double_one: "finite_double one64"
  by (simp add: one64_def)

lemma fsub_one_zero: "fsub one64 zero64 = one64"
  using fadd_zero_right [OF finite_double_one] by (simp add: fsub_def zero64_def)

lemma fsub_one_one: "fsub one64 one64 = zero64"
  by (simp add: fsub_def one64_def zero64_def round_ratio_def)

text \<open>Evaluating a rounding step by step, with the intermediate values given.\<close>

lemma round_ratio_evalI:
  assumes "p \<noteq> 0"
    and "int (bit_length (nat \<bar>p\<bar>)) - int (bit_length (nat q)) = d"
    and "(if q * 2 ^ nat d \<le> \<bar>p\<bar> * 2 ^ nat (- d) then d else d - 1) = l"
    and "max (l + E) (- 1022) - 52 = e"
    and "nearest_even (\<bar>p\<bar> * 2 ^ nat (E - e)) (q * 2 ^ nat (- (E - e))) = m"
    and "\<not> 971 < e" and "m \<noteq> 2 ^ 53" and "sgn p * m = r"
  shows "round_ratio p q E = Fin r e"
  unfolding round_ratio_def Let_def
  using assms(8) by (simp only: assms(1-7) if_False simp_thms)

section \<open>Interpolation: properties\<close>

lemma interp_loop_all_ok:
  "\<forall>i \<in> set is. interpolated_row row1 row2 n i = Inr (f i) \<Longrightarrow>
   interp_loop row1 row2 n is acc = Inr (acc @ map f is)"
  by (induction "is" arbitrary: acc) simp_all

lemma round_ratio_zero: "round_ratio 0 k 0 = zero64"
  by (simp add: round_ratio_def zero64_def)

lemma py_truediv_unit:
  assumes "0 \<le> i" and "i \<le> k" and "0 < k"
  shows "py_truediv i k = Inr (round_ratio i k 0)"
proof -
  from round_ratio_unit [OF assms] obtain m e where "round_ratio i k 0 = Fin m e"
    by blast
  with assms show ?thesis
    by (simp add: py_truediv_def)
qed

lemma interpolated_row_ok:
  "length A = length B \<Longrightarrow> 0 \<le> i \<Longrightarrow> i \<le> n - 1 \<Longrightarrow> 0 < n - 1 \<Longrightarrow>
   interpolated_row A B n i = Inr (lerp64 (round_ratio i (n - 1) 0) A B)"
  by (simp add: interpolated_row_def py_truediv_unit np_add_def np_scale_def lerp64_def
      zip_map_map split_def)

lemma interpolate_ok:
  assumes "length A = length B" and "2 \<le> n"
  shows "interpolate A B n =
           Inr (map (\<lambda>i. lerp64 (round_ratio i (n - 1) 0) A B) (py_range n))"
proof -
  have "\<forall>i \<in> set (py_range n).
          interpolated_row A B n i = Inr (lerp64 (round_ratio i (n - 1) 0) A B)"
    using assms by (auto simp: py_range_def intro!: interpolated_row_ok)
  then show ?thesis
    unfolding interpolate_def
    using interp_loop_all_ok [of "py_range n" A B n
        "\<lambda>i. lerp64 (round_ratio i (n - 1) 0) A B" "[]"]
    by simp
qed

lemma lerp64_zero:
  "length A = length B \<Longrightarrow> list_all finite_double A \<Longrightarrow> list_all finite_double B \<Longrightarrow>
   lerp64 zero64 A B = A"
  by (induction A B rule: list_induct2)
    (simp_all add: lerp64_def fsub_one_zero fmul_one_left fmul_zero_left fadd_zero_right)

lemma lerp64_one:
  "length A = length B \<Longrightarrow> list_all finite_double A \<Longrightarrow> list_all finite_double B \<Longrightarrow>
   lerp64 one64 A B = B"
  by (induction A B rule: list_induct2)
    (simp_all add: lerp64_def fsub_one_one fmul_one_left fmul_zero_left fadd_zero_left)

lemma py_range_4: "py_range 4 = [0, 1, 2, 3]"
  by code_simp

text \<open>
  The interpolation from \<open>[0.9, 1.0]\<close> to \<open>[0.9, 2.0]\<close> with \<open>n = 4\<close>, operation by
  operation: \<open>t = 1 / 3\<close> and \<open>t = 2 / 3\<close>, \<open>1 - t\<close>, the two products and the sum of
  each component.
\<close>

lemma truediv_1_3: "round_ratio 1 3 0 = Fin 6004799503160661 (- 54)"
  by (rule round_ratio_evalI [where d = "- 1" and l = "- 2" and m = "6004799503160661"];
      simp add: nearest_even_def bit_length_eval)

lemma one_minus_t1: "fsub one64 (Fin 6004799503160661 (- 54)) = Fin 6004799503160662 (- 53)"
  by (simp only: fsub_def one64_def fneg.simps(1) fadd.simps(1) Let_def)
    (rule round_ratio_evalI [where d = "53" and l = "53" and m = "6004799503160662"];
      simp add: nearest_even_def bit_length_eval)

lemma row1_0_left: "fmul (Fin 6004799503160662 (- 53)) (Fin 8106479329266893 (- 53)) = Fin 5404319552844596 (- 53)"
  by (simp only: fmul.simps(1))
    (rule round_ratio_evalI [where d = "105" and l = "105" and m = "5404319552844596"];
      simp add: nearest_even_def bit_length_eval)

lemma row1_0_right: "fmul (Fin 6004799503160661 (- 54)) (Fin 8106479329266893 (- 53)) = Fin 5404319552844595 (- 54)"
  by (simp only: fmul.simps(1))
    (rule round_ratio_evalI [where d = "105" and l = "105" and m = "5404319552844595"];
      simp add: nearest_even_def bit_length_eval)

lemma row1_0_sum: "fadd (Fin 5404319552844596 (- 53)) (Fin 5404319552844595 (- 54)) = Fin 8106479329266894 (- 53)"
  by (simp only: fadd.simps(1) Let_def)
    (rule round_ratio_evalI [where d = "53" and l = "53" and m = "8106479329266894"];
      simp add: nearest_even_def bit_length_eval)

lemma row1_1_left: "fmul (Fin 6004799503160662 (- 53)) (Fin 4503599627370496 (- 52)) = Fin 6004799503160662 (- 53)"
  by (simp only: fmul.simps(1))
    (rule round_ratio_evalI [where d = "104" and l = "104" and m = "6004799503160662"];
      simp add: nearest_even_def bit_length_eval)

lemma row1_1_right: "fmul (Fin 6004799503160661 (- 54)) (Fin 4503599627370496 (- 51)) = Fin 6004799503160661 (- 53)"
  by (simp only: fmul.simps(1))
    (rule round_ratio_evalI [where d = "104" and l = "104" and m = "6004799503160661"];
      simp add: nearest_even_def bit_length_eval)

lemma row1_1_sum: "fadd (Fin 6004799503160662 (- 53)) (Fin 6004799503160661 (- 53)) = Fin 6004799503160662 (- 52)"
  by (simp only: fadd.simps(1) Let_def)
    (rule round_ratio_evalI [where d = "53" and l = "53" and m = "6004799503160662"];
      simp add: nearest_even_def bit_length_eval)

lemma truediv_2_3: "round_ratio 2 3 0 = Fin 6004799503160661 (- 53)"
  by (rule round_ratio_evalI [where d = "0" and l = "- 1" and m = "6004799503160661"];
      simp add: nearest_even_def bit_length_eval)

lemma one_minus_t2: "fsub one64 (Fin 6004799503160661 (- 53)) = Fin 6004799503160662 (- 54)"
  by (simp only: fsub_def one64_def fneg.simps(1) fadd.simps(1) Let_def)
    (rule round_ratio_evalI [where d = "51" and l = "51" and m = "6004799503160662"];
      simp add: nearest_even_def bit_length_eval)

lemma row2_0_left: "fmul (Fin 6004799503160662 (- 54)) (Fin 8106479329266893 (- 53)) = Fin 5404319552844596 (- 54)"
  by (simp only: fmul.simps(1))
    (rule round_ratio_evalI [where d = "105" and l = "105" and m = "5404319552844596"];
      simp add: nearest_even_def bit_length_eval)

lemma row2_0_right: "fmul (Fin 6004799503160661 (- 53)) (Fin 8106479329266893 (- 53)) = Fin 5404319552844595 (- 53)"
  by (simp only: fmul.simps(1))
    (rule round_ratio_evalI [where d = "105" and l = "105" and m = "5404319552844595"];
      simp add: nearest_even_def bit_length_eval)

lemma row2_0_sum: "fadd (Fin 5404319552844596 (- 54)) (Fin 5404319552844595 (- 53)) = Fin 8106479329266893 (- 53)"
  by (simp only: fadd.simps(1) Let_def)
    (rule round_ratio_evalI [where d = "53" and l = "53" and m = "8106479329266893"];
      simp add: nearest_even_def bit_length_eval)

lemma row2_1_left: "fmul (Fin 6004799503160662 (- 54)) (Fin 4503599627370496 (- 52)) = Fin 6004799503160662 (- 54)"
  by (simp only: fmul.simps(1))
    (rule round_ratio_evalI [where d = "104" and l = "104" and m = "6004799503160662"];
      simp add: nearest_even_def bit_length_eval)

lemma row2_1_right: "fmul (Fin 6004799503160661 (- 53)) (Fin 4503599627370496 (- 51)) = Fin 6004799503160661 (- 52)"
  by (simp only: fmul.simps(1))
    (rule round_ratio_evalI [where d = "104" and l = "104" and m = "6004799503160661"];
      simp add: nearest_even_def bit_length_eval)

lemma row2_1_sum: "fadd (Fin 6004799503160662 (- 54)) (Fin 6004799503160661 (- 52)) = Fin 7505999378950826 (- 52)"
  by (simp only: fadd.simps(1) Let_def)
    (rule round_ratio_evalI [where d = "54" and l = "54" and m = "7505999378950826"];
      simp add: nearest_even_def bit_length_eval)

lemmas interpolate_example_steps =
  truediv_1_3 one_minus_t1 row1_0_left row1_0_right row1_0_sum row1_1_left row1_1_right row1_1_sum truediv_2_3 one_minus_t2 row2_0_left row2_0_right row2_0_sum row2_1_left row2_1_right row2_1_sum

lemma interpolate_example:
  "interpolate [Fin 8106479329266893 (- 53), Fin 4503599627370496 (- 52)]
     [Fin 8106479329266893 (- 53), Fin 4503599627370496 (- 51)] 4 =
   Inr [[Fin 8106479329266893 (- 53), Fin 4503599627370496 (- 52)],
        [Fin 8106479329266894 (- 53), Fin 6004799503160662 (- 52)],
        [Fin 8106479329266893 (- 53), Fin 7505999378950826 (- 52)],
        [Fin 8106479329266893 (- 53), Fin 4503599627370496 (- 51)]]"
proof -
  let ?A = "[Fin 8106479329266893 (- 53), Fin 4503599627370496 (- 52)]"
  let ?B = "[Fin 8106479329266893 (- 53), Fin 4503599627370496 (- 51)]"
  have fin: "list_all finite_double ?A" "list_all finite_double ?B"
    by simp_all
  have row0: "lerp64 (round_ratio 0 3 0) ?A ?B = ?A"
    using fin by (simp only: round_ratio_zero) (rule lerp64_zero, simp_all)
  have row3: "lerp64 (round_ratio 3 3 0) ?A ?B = ?B"
    using fin by (simp only: round_ratio_self [of 3, simplified]) (rule lerp64_one, simp_all)
  have row1: "lerp64 (round_ratio 1 3 0) ?A ?B =
      [Fin 8106479329266894 (- 53), Fin 6004799503160662 (- 52)]"
    by (simp add: lerp64_def interpolate_example_steps del: fmul.simps(1) fadd.simps(1))
  have row2: "lerp64 (round_ratio 2 3 0) ?A ?B =
      [Fin 8106479329266893 (- 53), Fin 7505999378950826 (- 52)]"
    by (simp add: lerp64_def interpolate_example_steps del: fmul.simps(1) fadd.simps(1))
  have "interpolate ?A ?B 4 = Inr (map (\<lambda>i. lerp64 (round_ratio i (4 - 1) 0) ?A ?B) (py_range 4))"
    by (rule interpolate_ok) simp_all
  then show ?thesis
    by (simp add: py_range_4 row0 row1 row2 row3 del: fmul.simps(1) fadd.simps(1))
qed

text \<open>
  Claim C1, as the code has it. For vectors \<open>A\<close> and \<open>B\<close> of equal length and
  \<open>n \<ge> 2\<close> the loop returns exactly \<open>n\<close> rows, in order; row \<open>i\<close> is
  \<open>(1 - t) * A + t * B\<close> with \<open>t = i / (n - 1)\<close>, every operation rounded to a double;
  and when the components of \<open>A\<close> and \<open>B\<close> are finite, row 0 is \<open>A\<close> and row
  \<open>n - 1\<close> is \<open>B\<close>, exactly.
\<close>

theorem interpolate_rounded:
  assumes len: "length A = length B" and n: "2 \<le> n"
  shows "\<exists>rows. interpolate A B n = Inr rows \<and> length rows = nat n \<and>
           (\<forall>i < nat n. \<exists>t. py_truediv (int i) (n - 1) = Inr t \<and> rows ! i = lerp64 t A B) \<and>
           (list_all finite_double A \<and> list_all finite_double B \<longrightarrow>
              rows ! 0 = A \<and> rows ! (nat n - 1) = B)"
proof -
  define rows where "rows = map (\<lambda>i. lerp64 (round_ratio i (n - 1) 0) A B) (py_range n)"
  have run: "interpolate A B n = Inr rows"
    unfolding rows_def using len n by (rule interpolate_ok)
  have size: "length rows = nat n"
    by (simp add: rows_def py_range_def)
  have row: "rows ! i = lerp64 (round_ratio (int i) (n - 1) 0) A B" if "i < nat n" for i
    using that by (simp add: rows_def py_range_def)
  have t: "py_truediv (int i) (n - 1) = Inr (round_ratio (int i) (n - 1) 0)" if "i < nat n" for i
    using that n by (intro py_truediv_unit) simp_all
  have formula: "\<forall>i < nat n. \<exists>t. py_truediv (int i) (n - 1) = Inr t \<and> rows ! i = lerp64 t A B"
    using row t by blast
  have ends: "rows ! 0 = A \<and> rows ! (nat n - 1) = B"
    if fin: "list_all finite_double A \<and> list_all finite_double B"
  proof
    from n have "0 < nat n" by simp
    then have "rows ! 0 = lerp64 (round_ratio (int 0) (n - 1) 0) A B" by (rule row)
    then show "rows ! 0 = A"
      using fin by (simp add: round_ratio_zero lerp64_zero [OF len])
  next
    from n have "nat n - 1 < nat n" and last: "int (nat n - 1) = n - 1" by simp_all
    then have "rows ! (nat n - 1) = lerp64 (round_ratio (int (nat n - 1)) (n - 1) 0) A B"
      by (intro row)
    moreover have "round_ratio (n - 1) (n - 1) 0 = one64"
      using n by (intro round_ratio_self) simp
    ultimately show "rows ! (nat n - 1) = B"
      using fin by (simp only: last lerp64_one [OF len])
  qed
  from run size formula ends show ?thesis by blast
qed

theorem interpolate_rounded_witness:
  "interpolate [Fin 8106479329266893 (- 53), Fin 4503599627370496 (- 52)]
     [Fin 8106479329266893 (- 53), Fin 4503599627370496 (- 51)] 4 =
   Inr [[Fin 8106479329266893 (- 53), Fin 4503599627370496 (- 52)],
        [Fin 8106479329266894 (- 53), Fin 6004799503160662 (- 52)],
        [Fin 8106479329266893 (- 53), Fin 7505999378950826 (- 52)],
        [Fin 8106479329266893 (- 53), Fin 4503599627370496 (- 51)]] \<and>
   list_all finite_double [Fin 8106479329266893 (- 53), Fin 4503599627370496 (- 52)] \<and>
   list_all finite_double [Fin 8106479329266893 (- 53), Fin 4503599627370496 (- 51)] \<and>
   (2 :: int) \<le> 4"
  using interpolate_rounded [of "[Fin 8106479329266893 (- 53), Fin 4503599627370496 (- 52)]"
      "[Fin 8106479329266893 (- 53), Fin 4503599627370496 (- 51)]" 4]
  by (simp add: interpolate_example)

text \<open>
  The claim as stated fails. From \<open>A = [0.9, 1.0]\<close> to \<open>B = [0.9, 2.0]\<close> with \<open>n = 4\<close>
  (\<open>0.9\<close> is the double \<open>8106479329266893 * 2 ^ -53\<close>) the first component of row 1
  is \<open>0.9000000000000001\<close>, the next double above \<open>0.9\<close>: it is greater than the first
  component of row 0 and greater than that of row 2, so the values are not monotone
  from \<open>A\<close> to \<open>B\<close> and do not stay between them.
\<close>

theorem interpolate_monotone_counterexample:
  "interpolate [Fin 8106479329266893 (- 53), Fin 4503599627370496 (- 52)]
     [Fin 8106479329266893 (- 53), Fin 4503599627370496 (- 51)] 4 =
   Inr [[Fin 8106479329266893 (- 53), Fin 4503599627370496 (- 52)],
        [Fin 8106479329266894 (- 53), Fin 6004799503160662 (- 52)],
        [Fin 8106479329266893 (- 53), Fin 7505999378950826 (- 52)],
        [Fin 8106479329266893 (- 53), Fin 4503599627370496 (- 51)]] \<and>
   fless (Fin 8106479329266893 (- 53)) (Fin 8106479329266894 (- 53))"
  by (simp add: interpolate_example)

text \<open>
  Claim C2, as the code has it. With \<open>n = 1\<close> the loop runs once and its division
  \<open>0 / (1 - 1)\<close> raises \<open>ZeroDivisionError\<close>, which propagates: nothing checks \<open>n\<close>
  beforehand and no other exception is raised.
\<close>

theorem interpolate_one_zero_division: "interpolate A B 1 = Inl ZeroDivisionError"
  by (simp add: interpolate_def py_range_def interpolated_row_def py_truediv_def)

theorem interpolate_one_zero_division_witness:
  "interpolate [Fin 4503599627370496 (- 52), Fin 4503599627370496 (- 51)]
     [Fin 6755399441055744 (- 51), Fin 4503599627370496 (- 50)] 1 = Inl ZeroDivisionError \<and>
   interpolate [] [] 1 = Inl ZeroDivisionError"
  using interpolate_one_zero_division [of "[Fin 4503599627370496 (- 52), Fin 4503599627370496 (- 51)]"
      "[Fin 6755399441055744 (- 51), Fin 4503599627370496 (- 50)]"]
    interpolate_one_zero_division [of "[]" "[]"]
  by simp

text \<open>
  The claim as stated fails: the exception of the interpolation of \<open>[1.0, 2.0]\<close> and
  \<open>[3.0, 4.0]\<close> with \<open>n = 1\<close> is the division's own, not \<open>DegenerateInputError\<close>.
\<close>

theorem interpolate_one_counterexample:
  "interpolate [Fin 4503599627370496 (- 52), Fin 4503599627370496 (- 51)]
     [Fin 6755399441055744 (- 51), Fin 4503599627370496 (- 50)] 1 = Inl ZeroDivisionError \<and>
   interpolate [Fin 4503599627370496 (- 52), Fin 4503599627370496 (- 51)]
     [Fin 6755399441055744 (- 51), Fin 4503599627370496 (- 50)] 1 \<noteq> Inl DegenerateInputError"
  by (simp add: interpolate_def py_range_def interpolated_row_def py_truediv_def)

text \<open>A count of zero or less is not rejected either: the loop does not run.\<close>

lemma interpolate_nonpositive: "n \<le> 0 \<Longrightarrow> interpolate A B n = Inr []"
  by (simp add: interpolate_def py_range_def)

section \<open>The decode request: properties\<close>

lemma shape_Axis_uniform:
  "as \<noteq> [] \<Longrightarrow> \<forall>a \<in> set as. shape a = Some s \<Longrightarrow> shape (Axis as) = Some (length as # s)"
  by (cases as) (simp_all add: list_all_iff)

lemma shape_vector: "shape (vector r) = Some [length r]"
proof (cases "r = []")
  case True
  then show ?thesis by (simp add: vector_def)
next
  case False
  then show ?thesis
    using shape_Axis_uniform [of "map Scalar r" "[]"] by (simp add: vector_def)
qed

lemma shape_rows:
  "\<forall>r \<in> set rows. length r = d \<Longrightarrow> shape (Axis (map vector rows)) \<noteq> None"
proof (cases "rows = []")
  case True
  then show ?thesis by simp
next
  case False
  assume "\<forall>r \<in> set rows. length r = d"
  with False show ?thesis
    using shape_Axis_uniform [of "map vector rows" "[d]"] by (simp add: shape_vector)
qed

lemma tolist_vector: "tolist (vector r) = JArr (map JNum r)"
  by (simp add: vector_def)

lemma package_request_value:
  assumes "\<forall>r \<in> set rows. length r = d"
  shows "package_request rows n =
           Inr \<lparr>hiddens = JArr (map (\<lambda>r. JArr [JArr (map JNum r)]) rows),
                mask = replicate (nat n) [True]\<rparr>"
proof -
  from shape_rows [OF assms] have "np_array (Axis (map vector rows)) = Inr (Axis (map vector rows))"
    by (auto simp: np_array_def)
  then show ?thesis
    by (simp add: package_request_def tolist_vector comp_def py_range_def map_replicate_const)
qed

lemma py_range_3: "py_range 3 = [0, 1, 2]"
  by code_simp

lemma package_request_example:
  "package_request [[0, 2], [2, 4], [4, 6]] 3 =
     Inr \<lparr>hiddens = JArr [JArr [JArr [JNum 0, JNum 2]], JArr [JArr [JNum 2, JNum 4]],
                         JArr [JArr [JNum 4, JNum 6]]],
          mask = [[True], [True], [True]]\<rparr>"
  by (simp add: package_request_def np_array_def vector_def py_range_3)

text \<open>
  Claim C8. Packaging \<open>n\<close> interpolated vectors of dimension \<open>d\<close> succeeds and gives
  a \<open>hiddens\<close> field of shape \<open>(n, 1, d)\<close> and a mask of \<open>n\<close> entries, each
  \<open>[True]\<close>.
\<close>

theorem package_request_shape:
  assumes "length rows = nat n" and "\<forall>r \<in> set rows. length r = d"
  shows "\<exists>req. package_request rows n = Inr req \<and>
           has_shape [nat n, 1, d] (hiddens req) \<and>
           length (mask req) = nat n \<and>
           (\<forall>m \<in> set (mask req). m = [True])"
  using assms by (simp add: package_request_value [OF assms(2)] list_all_iff)

theorem package_request_shape_witness:
  "package_request [[0, 2], [2, 4], [4, 6]] 3 =
     Inr \<lparr>hiddens = JArr [JArr [JArr [JNum 0, JNum 2]], JArr [JArr [JNum 2, JNum 4]],
                         JArr [JArr [JNum 4, JNum 6]]],
          mask = [[True], [True], [True]]\<rparr> \<and>
   has_shape [3, 1, 2] (JArr [JArr [JArr [JNum 0, JNum 2]], JArr [JArr [JNum 2, JNum 4]],
                         JArr [JArr [JNum 4, JNum 6]]]) \<and>
   length [[0, 2], [2, 4], [4, 6 :: real]] = nat 3"
  using package_request_shape [of "[[0, 2], [2, 4], [4, 6]]" 3 2]
  by (simp add: package_request_example)

text \<open>
  The rows of an interpolation are such vectors, so the two steps compose whenever the
  rows hold numbers.
\<close>

lemma those_length: "those xs = Some ys \<Longrightarrow> length ys = length xs"
  by (induction xs arbitrary: ys) (auto split: option.splits)

lemma those_map_lengths:
  "those (map (\<lambda>r. those (map f r)) rows) = Some vals \<Longrightarrow> \<forall>r \<in> set rows. length r = d \<Longrightarrow>
   \<forall>v \<in> set vals. length v = d"
proof (induction rows arbitrary: vals)
  case Nil
  then show ?case by simp
next
  case (Cons r rows)
  from Cons.prems(1) obtain v vs where v: "those (map f r) = Some v"
    and vs: "those (map (\<lambda>r. those (map f r)) rows) = Some vs" and vals: "vals = v # vs"
    by (auto split: option.splits)
  from those_length [OF v] Cons.prems(2) have "length v = d" by simp
  with Cons.IH [OF vs] Cons.prems(2) vals show ?case by simp
qed

lemma length_lerp64: "length A = length B \<Longrightarrow> length (lerp64 t A B) = length A"
  by (simp add: lerp64_def)

lemma interpolate_then_package:
  assumes "length A = length B" and "2 \<le> n"
  shows "\<exists>rows. interpolate A B n = Inr rows \<and>
           (\<forall>vals. json_rows rows = Some vals \<longrightarrow>
              (\<exists>req. package_request vals n = Inr req \<and>
                 has_shape [nat n, 1, length A] (hiddens req)))"
proof -
  let ?rows = "map (\<lambda>i. lerp64 (round_ratio i (n - 1) 0) A B) (py_range n)"
  from assms have run: "interpolate A B n = Inr ?rows"
    by (rule interpolate_ok)
  have lens: "\<forall>r \<in> set ?rows. length r = length A"
    using assms(1) by (auto simp: length_lerp64)
  have "\<exists>req. package_request vals n = Inr req \<and> has_shape [nat n, 1, length A] (hiddens req)"
    if vals: "json_rows ?rows = Some vals" for vals
  proof -
    from vals have "those (map (\<lambda>r. those (map float_value r)) ?rows) = Some vals"
      by (simp add: json_rows_def)
    then have "length vals = length (map (\<lambda>r. those (map float_value r)) ?rows)"
      by (rule those_length)
    then have "length vals = nat n"
      by (simp add: py_range_def)
    moreover from vals lens have all: "\<forall>v \<in> set vals. length v = length A"
      unfolding json_rows_def by (rule those_map_lengths)
    ultimately show ?thesis
      by (simp add: package_request_value [OF all] list_all_iff)
  qed
  with run show ?thesis by blast
qed

section \<open>Response extraction: properties\<close>

lemma shape_json_vector: "shape (json_vector r) = Some [length r]"
proof (cases "r = []")
  case True
  then show ?thesis by (simp add: json_vector_def)
next
  case False
  then show ?thesis
    using shape_Axis_uniform [of "map (\<lambda>x. Scalar (JNum x)) r" "[]"]
    by (simp add: json_vector_def)
qed

lemma nested_of_payload:
  "nested_of_json (hiddens_payload rows) = Axis (map (\<lambda>r. Axis [json_vector r]) rows)"
  by (simp add: hiddens_payload_def json_vector_def comp_def)

lemma shape_payload:
  assumes "\<forall>r \<in> set rows. length r = d"
  shows "shape (Axis (map (\<lambda>r. Axis [json_vector r]) rows)) \<noteq> None"
proof (cases "rows = []")
  case True
  then show ?thesis by simp
next
  case False
  with assms show ?thesis
    using shape_Axis_uniform [of "map (\<lambda>r. Axis [json_vector r]) rows" "[1, d]"]
    by (simp add: shape_json_vector)
qed

lemma np_squeeze_Axis: "length as \<noteq> 1 \<Longrightarrow> np_squeeze (Axis as) = Axis (map np_squeeze as)"
proof (cases as)
  case Nil
  then show ?thesis by simp
next
  case (Cons a bs)
  assume "length as \<noteq> 1"
  with Cons obtain b cs where "bs = b # cs" by (cases bs) auto
  with Cons show ?thesis by simp
qed

lemma np_squeeze_json_vector: "length r \<noteq> 1 \<Longrightarrow> np_squeeze (json_vector r) = json_vector r"
  by (simp add: json_vector_def np_squeeze_Axis comp_def)

lemma extract_hiddens_rows:
  assumes at: "map_of kvs ''hiddens'' = Some (hiddens_payload (r1 # r2 # rest))"
    and len: "\<forall>r \<in> set (r1 # r2 # rest). length r = d" and d: "d \<noteq> 1"
  shows "extract_hiddens (JObj kvs) = Inr (json_vector r1, json_vector r2)"
proof -
  let ?arr = "Axis (map (\<lambda>r. Axis [json_vector r]) (r1 # r2 # rest))"
  from shape_payload [OF len] have arr: "np_array ?arr = Inr ?arr"
    by (auto simp: np_array_def)
  from len d have sq: "np_squeeze ?arr = Axis (map json_vector (r1 # r2 # rest))"
    by (simp add: np_squeeze_json_vector)
  show ?thesis
    unfolding extract_hiddens_def
    by (simp add: at nested_of_payload arr sq Let_def del: np_squeeze.simps shape.simps list.map)
qed

lemma extract_hiddens_squeezed:
  assumes "map_of kvs ''hiddens'' = Some v" and "shape (nested_of_json v) \<noteq> None"
    and "np_squeeze (nested_of_json v) = Axis (a # b # rest)"
  shows "extract_hiddens (JObj kvs) = Inr (a, b)"
  using assms by (auto simp: extract_hiddens_def np_array_def Let_def)

lemma py_getitem_errors: "py_getitem r k = Inl e \<Longrightarrow> e = KeyError \<or> e = TypeError"
  by (cases r) (auto split: option.splits)

lemma nd_index_errors: "nd_index a i = Inl e \<Longrightarrow> e = IndexError"
  by (cases a) (auto split: if_splits)

lemma extract_hiddens_errors:
  "extract_hiddens r = Inl e \<Longrightarrow> e = KeyError \<or> e = TypeError \<or> e = ValueError \<or> e = IndexError"
  by (auto simp: extract_hiddens_def np_array_def Let_def split: sum.splits option.splits
      dest: py_getitem_errors nd_index_errors)

text \<open>
  Claim C3, as the code has it. Reading a key of the response object returns the value
  stored there and raises \<open>KeyError\<close> when the key is absent. Nothing checks rank or
  row count: the extraction of \<open>hiddens\<close> succeeds for every rectangular array,
  whatever its rank, whose squeezed form has at least two entries along its first axis,
  and yields entries 0 and 1; so it does for shape \<open>(m, 1, d)\<close> with any \<open>m \<ge> 2\<close>
  (and \<open>d \<noteq> 1\<close>). Its failures are Python's \<open>KeyError\<close>, \<open>TypeError\<close>, \<open>ValueError\<close>
  and \<open>IndexError\<close>.
\<close>

theorem extract_unchecked:
  "(map_of kvs key = None \<longrightarrow> py_getitem (JObj kvs) key = Inl KeyError) \<and>
   (map_of kvs key = Some v \<longrightarrow> py_getitem (JObj kvs) key = Inr v) \<and>
   (map_of kvs ''hiddens'' = None \<longrightarrow> extract_hiddens (JObj kvs) = Inl KeyError) \<and>
   (map_of kvs ''hiddens'' = Some (hiddens_payload (r1 # r2 # rest)) \<and>
    (\<forall>r \<in> set (r1 # r2 # rest). length r = d) \<and> d \<noteq> 1 \<longrightarrow>
      extract_hiddens (JObj kvs) = Inr (json_vector r1, json_vector r2)) \<and>
   (map_of kvs ''hiddens'' = Some w \<and> shape (nested_of_json w) \<noteq> None \<and>
    np_squeeze (nested_of_json w) = Axis (a # b # others) \<longrightarrow>
      extract_hiddens (JObj kvs) = Inr (a, b)) \<and>
   (\<forall>e. extract_hiddens (JObj kvs) = Inl e \<longrightarrow>
      e = KeyError \<or> e = TypeError \<or> e = ValueError \<or> e = IndexError)"
  using extract_hiddens_rows [of kvs r1 r2 rest d] extract_hiddens_squeezed [of kvs w a b others]
    extract_hiddens_errors [of "JObj kvs"]
  by (auto simp: extract_hiddens_def)

theorem extract_unchecked_witness:
  "extract_hiddens (JObj [(''hiddens'', hiddens_payload [[1, 2], [3, 4], [5, 6]])]) =
     Inr (json_vector [1, 2], json_vector [3, 4]) \<and>
   py_getitem (JObj [(''hiddens'', hiddens_payload [[1, 2], [3, 4], [5, 6]])]) ''hiddens'' =
     Inr (hiddens_payload [[1, 2], [3, 4], [5, 6]]) \<and>
   extract_hiddens (JObj [(''detail'', JStr ''error'')]) = Inl KeyError \<and>
   py_getitem (JObj [(''detail'', JStr ''error'')]) ''embeddings'' = Inl KeyError \<and>
   extract_hiddens (JObj [(''hiddens'',
      JArr [JArr [JArr [JArr [JNum 1, JNum 2], JArr [JNum 3, JNum 4]]],
            JArr [JArr [JArr [JNum 5, JNum 6], JArr [JNum 7, JNum 8]]]])]) =
     Inr (Axis [Axis [Scalar (JNum 1), Scalar (JNum 2)], Axis [Scalar (JNum 3), Scalar (JNum 4)]],
          Axis [Axis [Scalar (JNum 5), Scalar (JNum 6)], Axis [Scalar (JNum 7), Scalar (JNum 8)]])"
  using extract_unchecked [of "[(''hiddens'', hiddens_payload [[1, 2], [3, 4], [5, 6]])]" "''hiddens''"
      "hiddens_payload [[1, 2], [3, 4], [5, 6]]" "[1, 2]" "[3, 4]" "[[5, 6]]" 2]
    extract_unchecked [of "[(''detail'', JStr ''error'')]" "''embeddings''"]
    extract_unchecked [of "[(''hiddens'',
      JArr [JArr [JArr [JArr [JNum 1, JNum 2], JArr [JNum 3, JNum 4]]],
            JArr [JArr [JArr [JNum 5, JNum 6], JArr [JNum 7, JNum 8]]]])]" "''hiddens''" _ _ _ _ _
      "JArr [JArr [JArr [JArr [JNum 1, JNum 2], JArr [JNum 3, JNum 4]]],
            JArr [JArr [JArr [JNum 5, JNum 6], JArr [JNum 7, JNum 8]]]]"
      "Axis [Axis [Scalar (JNum 1), Scalar (JNum 2)], Axis [Scalar (JNum 3), Scalar (JNum 4)]]"
      "Axis [Axis [Scalar (JNum 5), Scalar (JNum 6)], Axis [Scalar (JNum 7), Scalar (JNum 8)]]" "[]"]
  by simp

text \<open>
  The claim as stated fails. A response with three rows is accepted (its third row is
  ignored); so are a response of rank 4, of shape \<open>(2, 1, 2, 2)\<close>, whose ``rows'' are
  matrices, and a response of rank 2, of shape \<open>(2, 2)\<close>; and so is a response with one
  row, whose two numbers become the two ``rows''. None is an error, and the failure
  for an absent key is not a \<open>SchemaError\<close>.
\<close>

theorem extract_hiddens_counterexample:
  "extract_hiddens (JObj [(''hiddens'',
      JArr [JArr [JArr [JNum 1, JNum 2]], JArr [JArr [JNum 3, JNum 4]], JArr [JArr [JNum 5, JNum 6]]])]) =
     Inr (Axis [Scalar (JNum 1), Scalar (JNum 2)], Axis [Scalar (JNum 3), Scalar (JNum 4)]) \<and>
   extract_hiddens (JObj [(''hiddens'',
      JArr [JArr [JArr [JArr [JNum 1, JNum 2], JArr [JNum 3, JNum 4]]],
            JArr [JArr [JArr [JNum 5, JNum 6], JArr [JNum 7, JNum 8]]]])]) =
     Inr (Axis [Axis [Scalar (JNum 1), Scalar (JNum 2)], Axis [Scalar (JNum 3), Scalar (JNum 4)]],
          Axis [Axis [Scalar (JNum 5), Scalar (JNum 6)], Axis [Scalar (JNum 7), Scalar (JNum 8)]]) \<and>
   extract_hiddens (JObj [(''hiddens'', JArr [JArr [JNum 1, JNum 2], JArr [JNum 3, JNum 4]])]) =
     Inr (Axis [Scalar (JNum 1), Scalar (JNum 2)], Axis [Scalar (JNum 3), Scalar (JNum 4)]) \<and>
   extract_hiddens (JObj [(''hiddens'', JArr [JArr [JArr [JNum 1, JNum 2]]])]) =
     Inr (Scalar (JNum 1), Scalar (JNum 2)) \<and>
   extract_hiddens (JObj [(''detail'', JStr ''error'')]) \<noteq> Inl SchemaError"
  by (simp add: extract_hiddens_def np_array_def)

end
